theory Spec2Isabelle
  imports Complex_Main
begin

section \<open>The Log2 shaper of \<^verbatim>\<open>Log2 shaper/log.py\<close>\<close>

text \<open>
  The module defines two functions, \<^verbatim>\<open>log_encoding_Log2\<close> and
  \<^verbatim>\<open>log_decoding_Log2\<close>. Their first argument is documented as
  "numeric or array_like" and their result as "numeric or ndarray"; the three
  remaining arguments are numerics with default values.

  The source computes in IEEE double precision. It is modelled twice. The
  first model reads every operation in exact arithmetic, over the reals; the
  statements proved in it are statements about the formulas of the source, and
  say so. The second model reads every operation in double precision, with
  rounding to nearest, overflow to an infinity, underflow to zero and NaN; it
  shows where a statement of exact arithmetic is not a statement about the
  values the source returns.

  Where the source divides by zero or takes the logarithm of a number that is
  not positive, IEEE arithmetic yields an infinity or a NaN, while \<open>x / 0\<close>
  and \<open>log 2 x\<close> for \<open>x \<le> 0\<close> are fixed reals in HOL. The statements
  of the exact model therefore carry the hypotheses under which neither
  occurs: a positive input of the encoding, a positive middle grey, and
  \<open>min_exposure < max_exposure\<close>.
\<close>

subsection \<open>Data\<close>

text \<open>
  A value handed to or returned by the two functions: a single number, or an
  ordered collection of numbers (a one-dimensional array).
\<close>

datatype data = Numeric real | Ndarray "real list"

text \<open>
  The NumPy operations the source applies to such a value. Each of them works
  on a number directly and on an array element by element; where the second
  operand is a plain number it is broadcast to every element.
\<close>

fun elementwise :: "(real \<Rightarrow> real) \<Rightarrow> data \<Rightarrow> data" where
  "elementwise f (Numeric x) = Numeric (f x)"
| "elementwise f (Ndarray xs) = Ndarray (map f xs)"

definition divide_by :: "data \<Rightarrow> real \<Rightarrow> data" where
  \<comment> \<open>\<^verbatim>\<open>a / c\<close>\<close>
  "divide_by a c = elementwise (\<lambda>x. x / c) a"

definition subtract :: "data \<Rightarrow> real \<Rightarrow> data" where
  \<comment> \<open>\<^verbatim>\<open>a - c\<close>\<close>
  "subtract a c = elementwise (\<lambda>x. x - c) a"

definition multiply :: "data \<Rightarrow> real \<Rightarrow> data" where
  \<comment> \<open>\<^verbatim>\<open>a * c\<close>\<close>
  "multiply a c = elementwise (\<lambda>x. x * c) a"

definition add :: "data \<Rightarrow> real \<Rightarrow> data" where
  \<comment> \<open>\<^verbatim>\<open>a + c\<close>\<close>
  "add a c = elementwise (\<lambda>x. x + c) a"

definition np_log2 :: "data \<Rightarrow> data" where
  \<comment> \<open>\<^verbatim>\<open>np.log2(a)\<close>\<close>
  "np_log2 a = elementwise (log 2) a"

definition two_to_the :: "data \<Rightarrow> data" where
  \<comment> \<open>\<^verbatim>\<open>2 ** a\<close>\<close>
  "two_to_the a = elementwise (\<lambda>x. 2 powr x) a"

subsection \<open>Default arguments\<close>

text \<open>
  Both signatures read
  \<^verbatim>\<open>middle_grey=0.18, min_exposure=0.18*2**-6.5, max_exposure=0.18*2**6.5\<close>.
\<close>

definition default_middle_grey :: real where
  "default_middle_grey = 0.18"

definition default_min_exposure :: real where
  "default_min_exposure = 0.18 * 2 powr (- 6.5)"

definition default_max_exposure :: real where
  "default_max_exposure = 0.18 * 2 powr 6.5"

subsection \<open>The two functions in exact arithmetic\<close>

text \<open>
  \<^verbatim>\<open>to_domain_1\<close> and \<^verbatim>\<open>from_range_1\<close> are imported from
  \<^verbatim>\<open>colour.utilities\<close>, which is not part of the module; they are taken as
  parameters. In the default configuration of the library both return their
  argument unchanged.
\<close>

definition log_encoding_Log2 ::
  "(data \<Rightarrow> data) \<Rightarrow> (data \<Rightarrow> data) \<Rightarrow> data \<Rightarrow> real \<Rightarrow> real \<Rightarrow> real \<Rightarrow> data" where
  "log_encoding_Log2 to_domain_1 from_range_1 lin middle_grey min_exposure max_exposure =
     (let lin = to_domain_1 lin;
          lg2 = np_log2 (divide_by lin middle_grey);
          log_norm = divide_by (subtract lg2 min_exposure) (max_exposure - min_exposure)
      in from_range_1 log_norm)"

definition log_decoding_Log2 ::
  "(data \<Rightarrow> data) \<Rightarrow> (data \<Rightarrow> data) \<Rightarrow> data \<Rightarrow> real \<Rightarrow> real \<Rightarrow> real \<Rightarrow> data" where
  "log_decoding_Log2 to_domain_1 from_range_1 log_norm middle_grey min_exposure max_exposure =
     (let log_norm = to_domain_1 log_norm;
          lg2 = add (multiply log_norm (max_exposure - min_exposure)) min_exposure;
          lin = multiply (two_to_the lg2) middle_grey
      in from_range_1 lin)"

subsection \<open>Double precision\<close>

text \<open>
  A double is a real on the binary64 grid, an infinity or a NaN. The two zeros
  of IEEE arithmetic are not told apart. \<open>exponent64\<close> is the binary
  exponent of the binade of a real, not below that of the subnormal numbers;
  \<open>ulp64\<close> is the spacing of the grid there, 52 binary digits below.
  \<open>round64\<close> rounds a real to the nearest point of the grid, a tie to
  the even one, and to an infinity from \<open>2 ^ 1024\<close> on.
\<close>

datatype float64 = Finite real | PInf | NInf | NaN

definition exponent64 :: "real \<Rightarrow> int" where
  "exponent64 x = max \<lfloor>log 2 \<bar>x\<bar>\<rfloor> (- 1022)"

definition ulp64 :: "real \<Rightarrow> real" where
  "ulp64 x = 2 powr (of_int (exponent64 x) - 52)"

definition round_half_even :: "real \<Rightarrow> int" where
  "round_half_even y =
     (let n = \<lfloor>y\<rfloor>; r = y - of_int n
      in if r < 1 / 2 then n else if 1 / 2 < r then n + 1 else if even n then n else n + 1)"

definition round_real64 :: "real \<Rightarrow> real" where
  "round_real64 x = of_int (round_half_even (x / ulp64 x)) * ulp64 x"

definition round64 :: "real \<Rightarrow> float64" where
  "round64 x =
     (let y = round_real64 x
      in if 2 ^ 1024 \<le> y then PInf else if y \<le> - (2 ^ 1024) then NInf else Finite y)"

text \<open>
  The operations of the source on doubles: the exact result, rounded, and the
  IEEE rules for infinities and NaN. \<^verbatim>\<open>np.log2\<close> and \<^verbatim>\<open>2 ** x\<close> are
  taken as correctly rounded; the evaluations below rest on underflow and on
  absorption, not on a last binary digit.
\<close>

definition infinity64 :: "bool \<Rightarrow> float64" where
  "infinity64 positive = (if positive then PInf else NInf)"

fun fneg :: "float64 \<Rightarrow> float64" where
  "fneg (Finite a) = Finite (- a)"
| "fneg PInf = NInf"
| "fneg NInf = PInf"
| "fneg NaN = NaN"

fun fadd :: "float64 \<Rightarrow> float64 \<Rightarrow> float64" where
  "fadd (Finite a) (Finite b) = round64 (a + b)"
| "fadd NaN y = NaN"
| "fadd x NaN = NaN"
| "fadd PInf NInf = NaN"
| "fadd NInf PInf = NaN"
| "fadd PInf y = PInf"
| "fadd NInf y = NInf"
| "fadd (Finite a) y = y"

definition fsub :: "float64 \<Rightarrow> float64 \<Rightarrow> float64" where
  "fsub x y = fadd x (fneg y)"


fun fdiv :: "float64 \<Rightarrow> float64 \<Rightarrow> float64" where
  "fdiv (Finite a) (Finite b) =
     (if b = 0 then (if a = 0 then NaN else infinity64 (0 < a)) else round64 (a / b))"
| "fdiv NaN y = NaN"
| "fdiv x NaN = NaN"
| "fdiv (Finite a) y = Finite 0"
| "fdiv PInf (Finite b) = infinity64 (0 \<le> b)"
| "fdiv NInf (Finite b) = infinity64 (b < 0)"
| "fdiv x y = NaN"

fun flog2 :: "float64 \<Rightarrow> float64" where
  "flog2 (Finite a) = (if a < 0 then NaN else if a = 0 then NInf else round64 (log 2 a))"
| "flog2 PInf = PInf"
| "flog2 NInf = NaN"
| "flog2 NaN = NaN"


subsection \<open>The two functions in double precision\<close>

text \<open>
  The same two bodies, every operation read in double precision.
\<close>

datatype data64 = Numeric64 float64 | Ndarray64 "float64 list"

fun elementwise64 :: "(float64 \<Rightarrow> float64) \<Rightarrow> data64 \<Rightarrow> data64" where
  "elementwise64 f (Numeric64 x) = Numeric64 (f x)"
| "elementwise64 f (Ndarray64 xs) = Ndarray64 (map f xs)"

definition log_encoding_Log2_float64 ::
  "(data64 \<Rightarrow> data64) \<Rightarrow> (data64 \<Rightarrow> data64) \<Rightarrow> data64 \<Rightarrow> float64 \<Rightarrow> float64 \<Rightarrow> float64 \<Rightarrow> data64" where
  "log_encoding_Log2_float64 to_domain_1 from_range_1 lin middle_grey min_exposure max_exposure =
     (let lin = to_domain_1 lin;
          lg2 = elementwise64 flog2 (elementwise64 (\<lambda>x. fdiv x middle_grey) lin);
          log_norm = elementwise64 (\<lambda>x. fdiv x (fsub max_exposure min_exposure))
                       (elementwise64 (\<lambda>x. fsub x min_exposure) lg2)
      in from_range_1 log_norm)"


subsection \<open>Bounding a binary logarithm\<close>

text \<open>
  The two reference values of the docstrings are checked against rational
  bounds on \<open>log 2 100\<close>. A bound is carried as a pair of an integer
  \<open>c\<close> and a mantissa \<open>m\<close>: \<open>log 2 x * 2 ^ e\<close> lies
  below (above) \<open>c + log 2 m\<close>. Raising the mantissa to the fourth power
  yields two further binary digits of the logarithm.
\<close>

definition log2_at_most :: "real \<Rightarrow> nat \<Rightarrow> nat \<Rightarrow> real \<Rightarrow> bool" where
  "log2_at_most x c e m \<longleftrightarrow> log 2 x * 2 ^ e \<le> real c + log 2 m"

definition log2_at_least :: "real \<Rightarrow> nat \<Rightarrow> nat \<Rightarrow> real \<Rightarrow> bool" where
  "log2_at_least x c e m \<longleftrightarrow> real c + log 2 m \<le> log 2 x * 2 ^ e"

section \<open>Basic facts\<close>

lemmas np_defs =
  divide_by_def subtract_def multiply_def add_def np_log2_def two_to_the_def

lemma encoding_Numeric:
  "log_encoding_Log2 id id (Numeric x) g lo hi = Numeric ((log 2 (x / g) - lo) / (hi - lo))"
  by (simp add: log_encoding_Log2_def np_defs)

lemma decoding_Numeric:
  "log_decoding_Log2 id id (Numeric y) g lo hi = Numeric (2 powr (y * (hi - lo) + lo) * g)"
  by (simp add: log_decoding_Log2_def np_defs)

lemma encoding_Ndarray:
  "log_encoding_Log2 id id (Ndarray xs) g lo hi =
     Ndarray (map (\<lambda>x. (log 2 (x / g) - lo) / (hi - lo)) xs)"
  by (simp add: log_encoding_Log2_def np_defs comp_def)

lemma decoding_Ndarray:
  "log_decoding_Log2 id id (Ndarray ys) g lo hi =
     Ndarray (map (\<lambda>y. 2 powr (y * (hi - lo) + lo) * g) ys)"
  by (simp add: log_decoding_Log2_def np_defs comp_def)

lemma elementwise_id: "elementwise (\<lambda>x. x) = id"
proof
  fix d show "elementwise (\<lambda>x. x) d = id d" by (cases d) simp_all
qed

lemma two_powr_13_halves: "(2::real) powr (13 / 2) = 64 * sqrt 2"
proof -
  have "(2::real) powr (13 / 2) = 2 powr (6 + 1 / 2)" by simp
  also have "\<dots> = 2 powr 6 * 2 powr (1 / 2)" by (rule powr_add)
  also have "(2::real) powr 6 = 2 ^ 6" by (rule powr_numeral) simp
  also have "(2::real) powr (1 / 2) = sqrt 2" by (simp add: powr_half_sqrt)
  finally show ?thesis by simp
qed

lemma two_powr_minus_13_halves: "(2::real) powr (- (13 / 2)) = 1 / (64 * sqrt 2)"
  by (simp add: powr_minus two_powr_13_halves inverse_eq_divide)

lemma default_min_exposure_eq: "default_min_exposure = 9 / (3200 * sqrt 2)"
  by (simp add: default_min_exposure_def two_powr_minus_13_halves)

lemma default_max_exposure_eq: "default_max_exposure = 288 / 25 * sqrt 2"
  by (simp add: default_max_exposure_def two_powr_13_halves)

lemma default_min_exposure_pos: "0 < default_min_exposure"
  by (simp add: default_min_exposure_def)

section \<open>Round trips\<close>

text \<open>
  C1. With both hooks the identity, a positive middle grey and
  \<open>min_exposure < max_exposure\<close>, decoding the encoding of a positive
  linear value gives that value back (in exact arithmetic).
\<close>

theorem decoding_encoding_roundtrip:
  assumes "0 < lin" and "0 < middle_grey" and "min_exposure < max_exposure"
  shows "log_decoding_Log2 id id
           (log_encoding_Log2 id id (Numeric lin) middle_grey min_exposure max_exposure)
           middle_grey min_exposure max_exposure = Numeric lin"
proof -
  from assms have pos: "0 < lin / middle_grey" by simp
  from assms have "(log 2 (lin / middle_grey) - min_exposure) / (max_exposure - min_exposure)
      * (max_exposure - min_exposure) + min_exposure = log 2 (lin / middle_grey)"
    by simp
  moreover from pos have "2 powr log 2 (lin / middle_grey) = lin / middle_grey"
    by simp
  ultimately show ?thesis
    using assms by (simp add: encoding_Numeric decoding_Numeric)
qed

theorem decoding_encoding_roundtrip_witness:
  "(0::real) < 18 \<and> (0::real) < 18 / 100 \<and> (- 13 / 2 :: real) < 13 / 2 \<and>
   log_decoding_Log2 id id (log_encoding_Log2 id id (Numeric 18) (18 / 100) (- 13 / 2) (13 / 2))
     (18 / 100) (- 13 / 2) (13 / 2) = Numeric 18"
  using decoding_encoding_roundtrip [of 18 "18 / 100" "- 13 / 2" "13 / 2"] by simp

text \<open>
  C2. With both hooks the identity, a positive middle grey and
  \<open>min_exposure < max_exposure\<close>, encoding the decoding of any real
  \<open>log_norm\<close> gives \<open>log_norm\<close> back (in exact arithmetic).
\<close>

theorem encoding_decoding_roundtrip:
  assumes "0 < middle_grey" and "min_exposure < max_exposure"
  shows "log_encoding_Log2 id id
           (log_decoding_Log2 id id (Numeric log_norm) middle_grey min_exposure max_exposure)
           middle_grey min_exposure max_exposure = Numeric log_norm"
  using assms by (simp add: encoding_Numeric decoding_Numeric)

theorem encoding_decoding_roundtrip_witness:
  "(0::real) < 18 / 100 \<and> (- 13 / 2 :: real) < 13 / 2 \<and>
   log_encoding_Log2 id id (log_decoding_Log2 id id (Numeric (1 / 3)) (18 / 100) (- 13 / 2) (13 / 2))
     (18 / 100) (- 13 / 2) (13 / 2) = Numeric (1 / 3)"
  using encoding_decoding_roundtrip [of "18 / 100" "- 13 / 2" "13 / 2" "1 / 3"] by simp

section \<open>Monotonicity, exposure shifts and positivity in exact arithmetic\<close>



text \<open>
  C9, amended. In exact arithmetic, with both hooks the identity, a positive
  middle grey and \<open>min_exposure < max_exposure\<close>: doubling a positive
  linear value raises its encoding by \<open>1 / (max_exposure - min_exposure)\<close>,
  whatever the value.
\<close>

theorem exposure_shift:
  assumes "0 < lin" and "0 < middle_grey" and "min_exposure < max_exposure"
  shows "\<exists>u v. log_encoding_Log2 id id (Numeric (2 * lin)) middle_grey min_exposure max_exposure = Numeric u
           \<and> log_encoding_Log2 id id (Numeric lin) middle_grey min_exposure max_exposure = Numeric v
           \<and> u - v = 1 / (max_exposure - min_exposure)"
proof -
  from assms have "0 < lin / middle_grey" by simp
  then have "log 2 (2 * (lin / middle_grey)) = log 2 2 + log 2 (lin / middle_grey)"
    by (intro log_mult_pos) simp_all
  then have "log 2 (2 * lin / middle_grey) = 1 + log 2 (lin / middle_grey)"
    by simp
  then have "(log 2 (2 * lin / middle_grey) - min_exposure) / (max_exposure - min_exposure)
      - (log 2 (lin / middle_grey) - min_exposure) / (max_exposure - min_exposure)
      = 1 / (max_exposure - min_exposure)"
    by (simp add: diff_divide_distrib [symmetric])
  then show ?thesis
    by (simp add: encoding_Numeric)
qed

theorem exposure_shift_witness:
  "(0::real) < 9 \<and> (0::real) < 18 / 100 \<and> (- 13 / 2 :: real) < 13 / 2
   \<and> (\<exists>u v. log_encoding_Log2 id id (Numeric 18) (18 / 100) (- 13 / 2) (13 / 2) = Numeric u
        \<and> log_encoding_Log2 id id (Numeric 9) (18 / 100) (- 13 / 2) (13 / 2) = Numeric v
        \<and> u - v = 1 / 13)"
  using exposure_shift [of 9 "18 / 100" "- 13 / 2" "13 / 2"] by simp



section \<open>Default arguments and middle grey\<close>

text \<open>
  C4, as stated: the defaults are \<open>middle_grey = 0.18\<close>,
  \<open>min_exposure = -6.5\<close> and \<open>max_exposure = 6.5\<close>. This is not what the
  signatures say: the default \<open>min_exposure\<close> is a positive number.
\<close>

theorem defaults_not_stop_counts:
  "\<not> (default_middle_grey = 0.18 \<and> default_min_exposure = - 6.5 \<and> default_max_exposure = 6.5)"
  using default_min_exposure_pos by simp

text \<open>
  C4, amended: the defaults are \<open>middle_grey = 0.18\<close>,
  \<open>min_exposure = 0.18 * 2 ** -6.5\<close> and \<open>max_exposure = 0.18 * 2 ** 6.5\<close>.
  These are the linear values that lie 6.5 stops below and above middle grey,
  a stop being the binary logarithm of the ratio between a value and middle
  grey; they are not the stop counts themselves.
\<close>

theorem defaults_in_stops:
  "default_middle_grey = 0.18
   \<and> default_min_exposure = 0.18 * 2 powr (- 6.5)
   \<and> default_max_exposure = 0.18 * 2 powr 6.5
   \<and> log 2 (default_min_exposure / default_middle_grey) = - 6.5
   \<and> log 2 (default_max_exposure / default_middle_grey) = 6.5"
  by (simp add: default_middle_grey_def default_min_exposure_def default_max_exposure_def)

text \<open>
  C6. With the default arguments and both hooks the identity, middle grey is
  encoded to \<open>(0 - min_exposure) / (max_exposure - min_exposure)\<close>. The same
  holds for every positive middle grey and \<open>min_exposure < max_exposure\<close>,
  and this position is one half exactly when the exposure bounds are
  symmetric about zero.
\<close>

theorem middle_grey_position:
  "log_encoding_Log2 id id (Numeric default_middle_grey)
      default_middle_grey default_min_exposure default_max_exposure
     = Numeric ((0 - default_min_exposure) / (default_max_exposure - default_min_exposure))
   \<and> (0 < middle_grey \<and> min_exposure < max_exposure \<longrightarrow>
        log_encoding_Log2 id id (Numeric middle_grey) middle_grey min_exposure max_exposure
          = Numeric ((0 - min_exposure) / (max_exposure - min_exposure))
        \<and> ((0 - min_exposure) / (max_exposure - min_exposure) = 1 / 2
             \<longleftrightarrow> min_exposure = - max_exposure))"
proof (intro conjI impI)
  show "log_encoding_Log2 id id (Numeric default_middle_grey)
      default_middle_grey default_min_exposure default_max_exposure
     = Numeric ((0 - default_min_exposure) / (default_max_exposure - default_min_exposure))"
    by (simp add: encoding_Numeric default_middle_grey_def)
next
  assume "0 < middle_grey \<and> min_exposure < max_exposure"
  then show "log_encoding_Log2 id id (Numeric middle_grey) middle_grey min_exposure max_exposure
          = Numeric ((0 - min_exposure) / (max_exposure - min_exposure))"
    by (simp add: encoding_Numeric)
next
  assume "0 < middle_grey \<and> min_exposure < max_exposure"
  then have "max_exposure - min_exposure \<noteq> 0" by simp
  then show "(0 - min_exposure) / (max_exposure - min_exposure) = 1 / 2
             \<longleftrightarrow> min_exposure = - max_exposure"
    by (auto simp: field_simps)
qed

theorem middle_grey_position_witness:
  "(0::real) < 18 / 100 \<and> (- 13 / 2 :: real) < 13 / 2
   \<and> log_encoding_Log2 id id (Numeric (18 / 100)) (18 / 100) (- 13 / 2) (13 / 2) = Numeric (1 / 2)"
  using middle_grey_position [of "18 / 100" "- 13 / 2" "13 / 2"] by simp

section \<open>Reference values\<close>

subsection \<open>Digits of a binary logarithm\<close>

lemma log2_scaled:
  fixes m :: real
  assumes "0 < m"
  shows "log 2 (2 ^ d * m) = real d + log 2 m"
proof -
  from assms have "log 2 (2 ^ d * m) = log 2 (2 ^ d) + log 2 m"
    by (intro log_mult_pos) simp_all
  moreover have "log 2 ((2::real) ^ d) = real d"
    by (simp add: log_nat_power)
  ultimately show ?thesis by simp
qed

lemma log2_power_le:
  fixes m m' :: real
  assumes m: "0 < m" and m': "0 < m'" and le: "m ^ q \<le> 2 ^ d * m'"
  shows "real q * log 2 m \<le> real d + log 2 m'"
proof -
  from m have "0 < m ^ q" by simp
  with le have "log 2 (m ^ q) \<le> log 2 (2 ^ d * m')"
    by (simp only: log_le_cancel_iff [of 2, simplified])
  with m m' show ?thesis
    by (simp only: log_nat_power [of m] log2_scaled less_imp_le)
qed

lemma log2_power_ge:
  fixes m m' :: real
  assumes m: "0 < m" and m': "0 < m'" and le: "2 ^ d * m' \<le> m ^ q"
  shows "real d + log 2 m' \<le> real q * log 2 m"
proof -
  from m' have "0 < 2 ^ d * m'" by simp
  with le have "log 2 (2 ^ d * m') \<le> log 2 (m ^ q)"
    by (simp only: log_le_cancel_iff [of 2, simplified])
  with m m' show ?thesis
    by (simp only: log_nat_power [of m] log2_scaled less_imp_le)
qed

lemma log2_at_most_step:
  assumes prev: "log2_at_most x c e m"
    and m: "0 < m" and m': "0 < m'"
    and le: "m ^ 4 \<le> 2 ^ d * m'"
    and c': "c' = 4 * c + d" and e': "e' = e + 2"
  shows "log2_at_most x c' e' m'"
proof -
  from m m' le have "real 4 * log 2 m \<le> real d + log 2 m'"
    by (rule log2_power_le)
  moreover from prev have "4 * (log 2 x * 2 ^ e) \<le> 4 * (real c + log 2 m)"
    by (simp add: log2_at_most_def)
  ultimately have "log 2 x * 2 ^ (e + 2) \<le> real (4 * c + d) + log 2 m'"
    by (simp add: power_add)
  then show ?thesis
    by (simp only: log2_at_most_def c' e')
qed

lemma log2_at_least_step:
  assumes prev: "log2_at_least x c e m"
    and m: "0 < m" and m': "0 < m'"
    and le: "2 ^ d * m' \<le> m ^ 4"
    and c': "c' = 4 * c + d" and e': "e' = e + 2"
  shows "log2_at_least x c' e' m'"
proof -
  from m m' le have "real d + log 2 m' \<le> real 4 * log 2 m"
    by (rule log2_power_ge)
  moreover from prev have "4 * (real c + log 2 m) \<le> 4 * (log 2 x * 2 ^ e)"
    by (simp add: log2_at_least_def)
  ultimately have "real (4 * c + d) + log 2 m' \<le> log 2 x * 2 ^ (e + 2)"
    by (simp add: power_add)
  then show ?thesis
    by (simp only: log2_at_least_def c' e')
qed

lemma log2_at_most_final:
  assumes "log2_at_most x c e m" and "0 < m" and "m \<le> 2"
  shows "log 2 x \<le> (real c + 1) / 2 ^ e"
proof -
  from assms(2,3) have "log 2 m \<le> log 2 2"
    by (simp only: log_le_cancel_iff [of 2, simplified])
  with assms(1) have "log 2 x * 2 ^ e \<le> real c + 1"
    by (simp add: log2_at_most_def)
  then show ?thesis by (simp add: pos_le_divide_eq)
qed

lemma log2_at_least_final:
  assumes "log2_at_least x c e m" and "1 \<le> m"
  shows "real c / 2 ^ e \<le> log 2 x"
proof -
  from assms(2) have "0 \<le> log 2 m" by simp
  with assms(1) have "real c \<le> log 2 x * 2 ^ e"
    by (simp add: log2_at_least_def)
  then show ?thesis by (simp add: pos_divide_le_eq)
qed

lemma log2_100_start: "log 2 (100::real) = 6 + log 2 (25 / 16)"
proof -
  have "log 2 (2 ^ 6 * (25 / 16 :: real)) = real 6 + log 2 (25 / 16)"
    by (rule log2_scaled) simp
  then show ?thesis by simp
qed

subsection \<open>The logarithm of 100 and the root of 2\<close>

lemma log2_100_upper: "log2_at_most 100 1870079266285788 48 (91447641260423262 / 2 ^ 56)"
proof -
  have start: "log2_at_most 100 6 0 (25 / 16)"
    by (simp add: log2_at_most_def log2_100_start)
  have s1: "log2_at_most 100 26 2 (107374182400000000 / 2 ^ 56)"
    by (rule log2_at_most_step [OF start, where d = 2]) (simp_all add: power_divide)
  have s2: "log2_at_most 100 106 4 (88817841970012524 / 2 ^ 56)"
    by (rule log2_at_most_step [OF s1, where d = 2]) (simp_all add: power_divide)
  have s3: "log2_at_most 100 425 6 (83163278125159197 / 2 ^ 56)"
    by (rule log2_at_most_step [OF s2, where d = 1]) (simp_all add: power_divide)
  have s4: "log2_at_most 100 1700 8 (127845995257797944 / 2 ^ 56)"
    by (rule log2_at_most_step [OF s3, where d = 0]) (simp_all add: power_divide)
  have s5: "log2_at_most 100 6803 10 (89252266825644789 / 2 ^ 56)"
    by (rule log2_at_most_step [OF s4, where d = 3]) (simp_all add: power_divide)
  have s6: "log2_at_most 100 27213 12 (84802323812933404 / 2 ^ 56)"
    by (rule log2_at_most_step [OF s5, where d = 1]) (simp_all add: power_divide)
  have s7: "log2_at_most 100 108852 14 (138226636862459099 / 2 ^ 56)"
    by (rule log2_at_most_step [OF s6, where d = 0]) (simp_all add: power_divide)
  have s8: "log2_at_most 100 435411 16 (121965698535457385 / 2 ^ 56)"
    by (rule log2_at_most_step [OF s7, where d = 3]) (simp_all add: power_divide)
  have s9: "log2_at_most 100 1741647 18 (73930147271122691 / 2 ^ 56)"
    by (rule log2_at_most_step [OF s8, where d = 3]) (simp_all add: power_divide)
  have s10: "log2_at_most 100 6966588 20 (79844869196045331 / 2 ^ 56)"
    by (rule log2_at_most_step [OF s9, where d = 0]) (simp_all add: power_divide)
  have s11: "log2_at_most 100 27866352 22 (108629750856030744 / 2 ^ 56)"
    by (rule log2_at_most_step [OF s10, where d = 0]) (simp_all add: power_divide)
  have s12: "log2_at_most 100 111465410 24 (93045606486136299 / 2 ^ 56)"
    by (rule log2_at_most_step [OF s11, where d = 2]) (simp_all add: power_divide)
  have s13: "log2_at_most 100 445861641 26 (100164589821640340 / 2 ^ 56)"
    by (rule log2_at_most_step [OF s12, where d = 1]) (simp_all add: power_divide)
  have s14: "log2_at_most 100 1783446565 28 (134520229763442754 / 2 ^ 56)"
    by (rule log2_at_most_step [OF s13, where d = 1]) (simp_all add: power_divide)
  have s15: "log2_at_most 100 7133786263 30 (109400962568184437 / 2 ^ 56)"
    by (rule log2_at_most_step [OF s14, where d = 3]) (simp_all add: power_divide)
  have s16: "log2_at_most 100 28535145054 32 (95716169433754464 / 2 ^ 56)"
    by (rule log2_at_most_step [OF s15, where d = 2]) (simp_all add: power_divide)
  have s17: "log2_at_most 100 114140580217 34 (112168773718607512 / 2 ^ 56)"
    by (rule log2_at_most_step [OF s16, where d = 1]) (simp_all add: power_divide)
  have s18: "log2_at_most 100 456562320870 36 (105776361749310388 / 2 ^ 56)"
    by (rule log2_at_most_step [OF s17, where d = 2]) (simp_all add: power_divide)
  have s19: "log2_at_most 100 1826249283482 38 (83647937574087821 / 2 ^ 56)"
    by (rule log2_at_most_step [OF s18, where d = 2]) (simp_all add: power_divide)
  have s20: "log2_at_most 100 7304997133928 40 (130852395691671448 / 2 ^ 56)"
    by (rule log2_at_most_step [OF s19, where d = 0]) (simp_all add: power_divide)
  have s21: "log2_at_most 100 29219988535715 42 (97948424445036574 / 2 ^ 56)"
    by (rule log2_at_most_step [OF s20, where d = 3]) (simp_all add: power_divide)
  have s22: "log2_at_most 100 116879954142861 44 (123004372799142029 / 2 ^ 56)"
    by (rule log2_at_most_step [OF s21, where d = 1]) (simp_all add: power_divide)
  have s23: "log2_at_most 100 467519816571447 46 (76480892071774244 / 2 ^ 56)"
    by (rule log2_at_most_step [OF s22, where d = 3]) (simp_all add: power_divide)
  have s24: "log2_at_most 100 1870079266285788 48 (91447641260423262 / 2 ^ 56)"
    by (rule log2_at_most_step [OF s23, where d = 0]) (simp_all add: power_divide)
  show ?thesis by (rule s24)
qed

lemma log2_100_lower: "log2_at_least 100 1870079266285788 48 (91422215444278689 / 2 ^ 56)"
proof -
  have start: "log2_at_least 100 6 0 (25 / 16)"
    by (simp add: log2_at_least_def log2_100_start)
  have s1: "log2_at_least 100 26 2 (107374182400000000 / 2 ^ 56)"
    by (rule log2_at_least_step [OF start, where d = 2]) (simp_all add: power_divide)
  have s2: "log2_at_least 100 106 4 (88817841970012523 / 2 ^ 56)"
    by (rule log2_at_least_step [OF s1, where d = 2]) (simp_all add: power_divide)
  have s3: "log2_at_least 100 425 6 (83163278125159192 / 2 ^ 56)"
    by (rule log2_at_least_step [OF s2, where d = 1]) (simp_all add: power_divide)
  have s4: "log2_at_least 100 1700 8 (127845995257797912 / 2 ^ 56)"
    by (rule log2_at_least_step [OF s3, where d = 0]) (simp_all add: power_divide)
  have s5: "log2_at_least 100 6803 10 (89252266825644699 / 2 ^ 56)"
    by (rule log2_at_least_step [OF s4, where d = 3]) (simp_all add: power_divide)
  have s6: "log2_at_least 100 27213 12 (84802323812933061 / 2 ^ 56)"
    by (rule log2_at_least_step [OF s5, where d = 1]) (simp_all add: power_divide)
  have s7: "log2_at_least 100 108852 14 (138226636862456862 / 2 ^ 56)"
    by (rule log2_at_least_step [OF s6, where d = 0]) (simp_all add: power_divide)
  have s8: "log2_at_least 100 435411 16 (121965698535449489 / 2 ^ 56)"
    by (rule log2_at_least_step [OF s7, where d = 3]) (simp_all add: power_divide)
  have s9: "log2_at_least 100 1741647 18 (73930147271103545 / 2 ^ 56)"
    by (rule log2_at_least_step [OF s8, where d = 3]) (simp_all add: power_divide)
  have s10: "log2_at_least 100 6966588 20 (79844869195962619 / 2 ^ 56)"
    by (rule log2_at_least_step [OF s9, where d = 0]) (simp_all add: power_divide)
  have s11: "log2_at_least 100 27866352 22 (108629750855580621 / 2 ^ 56)"
    by (rule log2_at_least_step [OF s10, where d = 0]) (simp_all add: power_divide)
  have s12: "log2_at_least 100 111465410 24 (93045606484594106 / 2 ^ 56)"
    by (rule log2_at_least_step [OF s11, where d = 2]) (simp_all add: power_divide)
  have s13: "log2_at_least 100 445861641 26 (100164589814999591 / 2 ^ 56)"
    by (rule log2_at_least_step [OF s12, where d = 1]) (simp_all add: power_divide)
  have s14: "log2_at_least 100 1783446565 28 (134520229727768865 / 2 ^ 56)"
    by (rule log2_at_least_step [OF s13, where d = 1]) (simp_all add: power_divide)
  have s15: "log2_at_least 100 7133786263 30 (109400962452134744 / 2 ^ 56)"
    by (rule log2_at_least_step [OF s14, where d = 3]) (simp_all add: power_divide)
  have s16: "log2_at_least 100 28535145054 32 (95716169027621581 / 2 ^ 56)"
    by (rule log2_at_least_step [OF s15, where d = 2]) (simp_all add: power_divide)
  have s17: "log2_at_least 100 114140580217 34 (112168771814836082 / 2 ^ 56)"
    by (rule log2_at_least_step [OF s16, where d = 1]) (simp_all add: power_divide)
  have s18: "log2_at_least 100 456562320870 36 (105776354568202716 / 2 ^ 56)"
    by (rule log2_at_least_step [OF s17, where d = 2]) (simp_all add: power_divide)
  have s19: "log2_at_least 100 1826249283482 38 (83647914858812870 / 2 ^ 56)"
    by (rule log2_at_least_step [OF s18, where d = 2]) (simp_all add: power_divide)
  have s20: "log2_at_least 100 7304997133928 40 (130852253555617812 / 2 ^ 56)"
    by (rule log2_at_least_step [OF s19, where d = 0]) (simp_all add: power_divide)
  have s21: "log2_at_least 100 29219988535715 42 (97947998866895551 / 2 ^ 56)"
    by (rule log2_at_least_step [OF s20, where d = 3]) (simp_all add: power_divide)
  have s22: "log2_at_least 100 116879954142861 44 (123002235036071741 / 2 ^ 56)"
    by (rule log2_at_least_step [OF s21, where d = 1]) (simp_all add: power_divide)
  have s23: "log2_at_least 100 467519816571447 46 (76475575390401230 / 2 ^ 56)"
    by (rule log2_at_least_step [OF s22, where d = 3]) (simp_all add: power_divide)
  have s24: "log2_at_least 100 1870079266285788 48 (91422215444278689 / 2 ^ 56)"
    by (rule log2_at_least_step [OF s23, where d = 0]) (simp_all add: power_divide)
  show ?thesis by (rule s24)
qed

lemma log2_100_bounds:
  "1870079266285788 / 2 ^ 48 \<le> log 2 (100::real)"
  "log 2 (100::real) \<le> 1870079266285789 / 2 ^ 48"
  using log2_at_least_final [OF log2_100_lower] log2_at_most_final [OF log2_100_upper]
  by simp_all

lemma sqrt2_bounds:
  "141421356237309504880 / 10 ^ 20 < sqrt 2"
  "sqrt 2 < 141421356237309504881 / 10 ^ 20"
proof -
  show "141421356237309504880 / 10 ^ 20 < sqrt 2"
    by (rule real_less_rsqrt) (simp add: power_divide)
  show "sqrt 2 < 141421356237309504881 / 10 ^ 20"
    by (rule real_less_lsqrt) (simp_all add: power_divide)
qed

lemma two_powr_upper:
  fixes t :: real
  assumes "0 \<le> t" and "t \<le> 1"
  shows "2 powr t \<le> 1 + t + t\<^sup>2"
proof -
  have "ln (2::real) \<le> 1" using ln_2_less_1 by simp
  with assms have "t * ln 2 \<le> t" by (simp add: mult_left_le)
  then have "exp (t * ln 2) \<le> exp t" by simp
  also from assms have "exp t \<le> 1 + t + t\<^sup>2" by (rule exp_bound)
  finally show ?thesis by (simp add: powr_def)
qed

lemma two_powr_lower:
  fixes t :: real
  assumes "t \<le> 0"
  shows "1 + t \<le> 2 powr t"
proof -
  have "ln (2::real) \<le> 1" using ln_2_less_1 by simp
  from this assms have "t * 1 \<le> t * ln 2" by (rule mult_left_mono_neg)
  then have "1 + t \<le> 1 + t * ln 2" by simp
  also have "1 + t * ln 2 \<le> exp (t * ln 2)" by (rule exp_ge_add_one_self)
  finally show ?thesis by (simp add: powr_def)
qed

lemma default_min_exposure_sqrt: "default_min_exposure = 9 / 6400 * sqrt 2"
proof -
  have "sqrt 2 * sqrt 2 = (2::real)" by simp
  then have "9 / (3200 * sqrt 2) = 9 / 6400 * sqrt 2"
    by (simp add: field_simps)
  then show ?thesis by (simp only: default_min_exposure_eq)
qed

lemma default_exposure_range: "default_max_exposure - default_min_exposure = 73719 / 6400 * sqrt 2"
  by (simp add: default_min_exposure_sqrt default_max_exposure_eq)

lemma encoding_18:
  "log_encoding_Log2 id id (Numeric 18) default_middle_grey default_min_exposure default_max_exposure
     = Numeric ((log 2 100 - 9 / 6400 * sqrt 2) / (73719 / 6400 * sqrt 2))"
  by (simp only: encoding_Numeric default_exposure_range)
     (simp add: default_middle_grey_def default_min_exposure_sqrt)

lemma encoding_18_bounds:
  "\<bar>(log 2 100 - 9 / 6400 * sqrt 2) / (73719 / 6400 * sqrt 2) - 0.40773288970434662\<bar> < 1 / 10 ^ 15"
proof -
  let ?r = "sqrt 2 :: real"
  let ?L = "log 2 (100::real)"
  have pos: "0 < 73719 / 6400 * ?r" by simp
  have up: "?L - 9 / 6400 * ?r < (0.40773288970434662 + 1 / 10 ^ 15) * (73719 / 6400 * ?r)"
    using log2_100_bounds(2) sqrt2_bounds(1) by simp
  have low: "(0.40773288970434662 - 1 / 10 ^ 15) * (73719 / 6400 * ?r) < ?L - 9 / 6400 * ?r"
    using log2_100_bounds(1) sqrt2_bounds(2) by simp
  from up pos have "(?L - 9 / 6400 * ?r) / (73719 / 6400 * ?r) < 0.40773288970434662 + 1 / 10 ^ 15"
    by (simp only: pos_divide_less_eq)
  moreover from low pos have "0.40773288970434662 - 1 / 10 ^ 15 < (?L - 9 / 6400 * ?r) / (73719 / 6400 * ?r)"
    by (simp only: pos_less_divide_eq)
  ultimately show ?thesis by (simp only: abs_less_iff) linarith
qed

lemma decoding_reference:
  "log_decoding_Log2 id id (Numeric 0.40773288970434662)
       default_middle_grey default_min_exposure default_max_exposure
     = Numeric (18 * 2 powr (0.40773288970434662 * (73719 / 6400 * sqrt 2)
                  + 9 / 6400 * sqrt 2 - log 2 100))"
proof -
  let ?s = "0.40773288970434662 * (73719 / 6400 * sqrt 2) + 9 / 6400 * sqrt 2 :: real"
  have "2 powr ?s = 2 powr (log 2 100 + (?s - log 2 100))" by simp
  also have "\<dots> = 2 powr log 2 100 * 2 powr (?s - log 2 100)" by (rule powr_add)
  also have "2 powr log 2 100 = (100::real)" by simp
  finally have "2 powr ?s * (18 / 100) = 18 * 2 powr (?s - log 2 100)" by simp
  then show ?thesis
    by (simp only: decoding_Numeric default_exposure_range)
       (simp add: default_middle_grey_def default_min_exposure_sqrt)
qed

lemma decoding_reference_bounds:
  fixes t :: real
  assumes "t = 0.40773288970434662 * (73719 / 6400 * sqrt 2) + 9 / 6400 * sqrt 2 - log 2 100"
  shows "18 - 1 / 10 ^ 13 < 18 * 2 powr t - 7 / 10 ^ 15" and "18 * 2 powr t < 18 + 1 / 10 ^ 13 - 7 / 10 ^ 15"
proof -
  have lo: "- (2 / 10 ^ 15) \<le> t"
    unfolding assms using log2_100_bounds(2) sqrt2_bounds(1) by simp
  have hi: "t \<le> 3 / 10 ^ 15"
    unfolding assms using log2_100_bounds(1) sqrt2_bounds(2) by simp
  have "1 + - (2 / 10 ^ 15) \<le> 2 powr (- (2 / 10 ^ 15) :: real)"
    by (rule two_powr_lower) simp
  also from lo have "2 powr (- (2 / 10 ^ 15)) \<le> 2 powr t"
    by (intro powr_mono) simp_all
  finally show "18 - 1 / 10 ^ 13 < 18 * 2 powr t - 7 / 10 ^ 15" by simp
  from hi have "2 powr t \<le> 2 powr (3 / 10 ^ 15 :: real)"
    by (intro powr_mono) simp_all
  also have "2 powr (3 / 10 ^ 15 :: real) \<le> 1 + 3 / 10 ^ 15 + (3 / 10 ^ 15)\<^sup>2"
    by (rule two_powr_upper) simp_all
  finally show "18 * 2 powr t < 18 + 1 / 10 ^ 13 - 7 / 10 ^ 15" by (simp add: power_divide)
qed

text \<open>
  C5. With the default arguments (\<open>middle_grey = 0.18\<close>,
  \<open>min_exposure = 0.18 * 2 ** -6.5\<close>, \<open>max_exposure = 0.18 * 2 ** 6.5\<close>)
  and both hooks the identity, the encoding of 18 is 0.40773288970434662 to
  within \<open>1 / 10 ^ 15\<close>, and the decoding of 0.40773288970434662 is
  17.999999999999993, and 18, to within \<open>1 / 10 ^ 13\<close> (in exact
  arithmetic).
\<close>

theorem reference_values:
  "\<exists>u v. log_encoding_Log2 id id (Numeric 18)
            default_middle_grey default_min_exposure default_max_exposure = Numeric u
        \<and> \<bar>u - 0.40773288970434662\<bar> < 1 / 10 ^ 15
        \<and> log_decoding_Log2 id id (Numeric 0.40773288970434662)
            default_middle_grey default_min_exposure default_max_exposure = Numeric v
        \<and> \<bar>v - 17.999999999999993\<bar> < 1 / 10 ^ 13
        \<and> \<bar>v - 18\<bar> < 1 / 10 ^ 13"
proof -
  define t :: real
    where "t = 0.40773288970434662 * (73719 / 6400 * sqrt 2) + 9 / 6400 * sqrt 2 - log 2 100"
  note b = decoding_reference_bounds [OF t_def]
  have "\<bar>18 * 2 powr t - 17.999999999999993\<bar> < 1 / 10 ^ 13"
    using b by (simp only: abs_less_iff) simp
  moreover have "\<bar>18 * 2 powr t - 18\<bar> < 1 / 10 ^ 13"
    using b by (simp only: abs_less_iff) simp
  ultimately show ?thesis
    using encoding_18_bounds
    by (simp only: encoding_18 decoding_reference t_def [symmetric]) blast
qed

section \<open>Double precision\<close>

subsection \<open>Rounding\<close>

lemma round_half_even_near:
  assumes "\<bar>y - of_int n\<bar> < 1 / 2"
  shows "round_half_even y = n"
proof (cases "of_int n \<le> y")
  case True
  with assms have "\<lfloor>y\<rfloor> = n" by (intro floor_unique) linarith+
  with assms True show ?thesis by (simp add: round_half_even_def Let_def)
next
  case False
  have n1: "real_of_int (n - 1) = of_int n - 1" by simp
  from False assms have "of_int n - 1 \<le> y" and "y < of_int n - 1 + 1"
    by linarith+
  then have fl: "\<lfloor>y\<rfloor> = n - 1"
    by (intro floor_unique) (simp_all only: n1)
  from False assms have "1 / 2 < y - (of_int n - 1)" by linarith
  with fl show ?thesis by (simp add: round_half_even_def Let_def)
qed

lemma round_half_even_of_int: "round_half_even (of_int n) = n"
  by (rule round_half_even_near) simp

lemma round_half_even_ge_floor: "\<lfloor>y\<rfloor> \<le> round_half_even y"
  by (simp add: round_half_even_def Let_def)

lemma exponent64_normal:
  assumes "2 powr of_int k \<le> \<bar>x\<bar>" and "\<bar>x\<bar> < 2 powr (of_int k + 1)" and "- 1022 \<le> k"
  shows "exponent64 x = k"
proof -
  from assms(1) have pos: "0 < \<bar>x\<bar>"
    by (rule less_le_trans [rotated]) simp
  from pos assms(1) have "of_int k \<le> log 2 \<bar>x\<bar>" by (simp add: le_log_iff)
  moreover from pos assms(2) have "log 2 \<bar>x\<bar> < of_int k + 1" by (simp add: log_less_iff)
  ultimately have "\<lfloor>log 2 \<bar>x\<bar>\<rfloor> = k" by (intro floor_unique)
  with assms(3) show ?thesis by (simp add: exponent64_def)
qed


lemma round_real64_exact:
  assumes "exponent64 x = k" and "x = of_int m * 2 powr (of_int k - 52)"
  shows "round_real64 x = x"
proof -
  define u :: real where "u = 2 powr (of_int k - 52)"
  have u: "ulp64 x = u" by (simp only: ulp64_def assms(1) u_def)
  have "0 < u" by (simp add: u_def)
  with assms(2) have "x / u = of_int m" by (simp add: u_def)
  then have "round_real64 x = of_int m * u"
    by (simp only: round_real64_def u round_half_even_of_int)
  with assms(2) show ?thesis by (simp only: u_def)
qed

lemma round64_exact:
  assumes lo: "2 powr of_int k \<le> \<bar>x\<bar>" and hi: "\<bar>x\<bar> < 2 powr (of_int k + 1)"
    and k: "- 1022 \<le> k" "k < 1024"
    and m: "x = of_int m * 2 powr (of_int k - 52)"
  shows "round64 x = Finite x"
proof -
  from lo hi k(1) have "exponent64 x = k" by (rule exponent64_normal)
  then have r: "round_real64 x = x" using m by (rule round_real64_exact)
  from k(2) have "of_int k + 1 \<le> (1024::real)" by linarith
  then have "(2::real) powr (of_int k + 1) \<le> 2 powr 1024"
    by (intro powr_mono) simp_all
  also have "(2::real) powr 1024 = 2 ^ 1024"
    by (rule powr_numeral) simp
  finally have "\<bar>x\<bar> < 2 ^ 1024" using hi by linarith
  then have "\<not> 2 ^ 1024 \<le> x" and "\<not> x \<le> - (2 ^ 1024)" by linarith+
  with r show ?thesis by (simp add: round64_def Let_def)
qed

lemma round64_zero: "round64 0 = Finite 0"
  by (simp add: round64_def round_real64_def round_half_even_def Let_def)

lemma round64_13: "round64 13 = Finite 13"
  by (rule round64_exact [where k = 3 and m = "13 * 2 ^ 49"]) (simp_all add: powr_minus)

lemma round_real64_near:
  assumes "exponent64 x = k" and "\<bar>x / 2 powr (of_int k - 52) - of_int m\<bar> < 1 / 2"
  shows "round_real64 x = of_int m * 2 powr (of_int k - 52)"
proof -
  have "ulp64 x = 2 powr (of_int k - 52)" by (simp only: ulp64_def assms(1))
  then show ?thesis
    by (simp only: round_real64_def round_half_even_near [OF assms(2)])
qed


lemma round_real64_positive:
  assumes lo: "2 powr of_int k \<le> x" and hi: "x < 2 powr (of_int k + 1)" and k: "- 1022 \<le> k"
  shows "0 < round_real64 x"
proof -
  have pos: "0 < x" using lo by (rule less_le_trans [rotated]) simp
  with lo hi k have e: "exponent64 x = k" by (intro exponent64_normal) simp_all
  define u :: real where "u = 2 powr (of_int k - 52)"
  have u: "ulp64 x = u" by (simp only: ulp64_def e u_def)
  have upos: "0 < u" by (simp add: u_def)
  have "2 powr of_int k / u = 2 powr (of_int k - (of_int k - 52))"
    unfolding u_def by (rule powr_diff [symmetric])
  also have "\<dots> = 2 ^ 52" by simp
  finally have "2 powr of_int k / u = 2 ^ 52" .
  moreover from lo upos have "2 powr of_int k / u \<le> x / u"
    by (intro divide_right_mono) simp_all
  ultimately have "2 ^ 52 \<le> x / u" by (simp only:)
  then have "1 \<le> x / u" by simp
  then have "1 \<le> \<lfloor>x / u\<rfloor>" by simp
  with round_half_even_ge_floor [of "x / u"] have "1 \<le> round_half_even (x / u)" by linarith
  then have "0 < real_of_int (round_half_even (x / u))" by simp
  with upos show ?thesis by (simp add: round_real64_def u)
qed

lemma round64_positive:
  assumes "2 powr of_int k \<le> x" and "x < 2 powr (of_int k + 1)" and "- 1022 \<le> k"
  shows "round64 x \<noteq> Finite 0"
proof -
  from assms have "0 < round_real64 x" by (rule round_real64_positive)
  then show ?thesis by (simp add: round64_def Let_def)
qed

lemma round64_absorbs_one: "round64 (10 ^ 18 + 1) = Finite (10 ^ 18)"
proof -
  let ?x = "10 ^ 18 + 1 :: real"
  have e: "exponent64 ?x = 59"
    by (rule exponent64_normal) simp_all
  have "\<bar>?x / 2 powr (of_int 59 - 52) - of_int 7812500000000000\<bar> < 1 / 2"
    by simp
  with e have "round_real64 ?x = of_int 7812500000000000 * 2 powr (of_int 59 - 52)"
    by (rule round_real64_near)
  then have "round_real64 ?x = 10 ^ 18" by simp
  then show ?thesis by (simp add: round64_def)
qed

subsection \<open>Evaluations\<close>

lemma round64_values:
  "round64 1 = Finite 1"
  "round64 2 = Finite 2"
  "round64 (1 / 2) = Finite (1 / 2)"
  "round64 13 = Finite 13"
  "round64 (- 1300) = Finite (- 1300)"
  "round64 (- 1287) = Finite (- 1287)"
  "round64 (- (2613 / 2)) = Finite (- (2613 / 2))"
  "round64 (- (2587 / 2)) = Finite (- (2587 / 2))"
  "round64 (10 ^ 18) = Finite (10 ^ 18)"
  "round64 (2 * 10 ^ 18) = Finite (2 * 10 ^ 18)"
proof -
  show "round64 1 = Finite 1"
    by (rule round64_exact [where k = 0 and m = "2 ^ 52"]) (simp_all add: powr_minus)
  show "round64 2 = Finite 2"
    by (rule round64_exact [where k = 1 and m = "2 ^ 52"]) (simp_all add: powr_minus)
  show "round64 (1 / 2) = Finite (1 / 2)"
    by (rule round64_exact [where k = "- 1" and m = "2 ^ 52"]) (simp_all add: powr_minus)
  show "round64 13 = Finite 13"
    by (rule round64_exact [where k = 3 and m = "13 * 2 ^ 49"]) (simp_all add: powr_minus)
  show "round64 (- 1300) = Finite (- 1300)"
    by (rule round64_exact [where k = 10 and m = "- 1300 * 2 ^ 42"]) (simp_all add: powr_minus)
  show "round64 (- 1287) = Finite (- 1287)"
    by (rule round64_exact [where k = 10 and m = "- 1287 * 2 ^ 42"]) (simp_all add: powr_minus)
  show "round64 (- (2613 / 2)) = Finite (- (2613 / 2))"
    by (rule round64_exact [where k = 10 and m = "- 2613 * 2 ^ 41"]) (simp_all add: powr_minus)
  show "round64 (- (2587 / 2)) = Finite (- (2587 / 2))"
    by (rule round64_exact [where k = 10 and m = "- 2587 * 2 ^ 41"]) (simp_all add: powr_minus)
  show "round64 (10 ^ 18) = Finite (10 ^ 18)"
    by (rule round64_exact [where k = 59 and m = 7812500000000000]) simp_all
  show "round64 (2 * 10 ^ 18) = Finite (2 * 10 ^ 18)"
    by (rule round64_exact [where k = 60 and m = 7812500000000000]) simp_all
qed




lemma exposure_range_float64:
  "fsub (Finite (10 ^ 18)) (Finite (- (10 ^ 18))) = Finite (2 * 10 ^ 18)"
proof -
  have "fsub (Finite (10 ^ 18)) (Finite (- (10 ^ 18))) = round64 (2 * 10 ^ 18)"
    by (simp add: fsub_def)
  then show ?thesis by (simp only: round64_values)
qed

lemma encoding_float64_one:
  "log_encoding_Log2_float64 id id (Numeric64 (Finite 1))
     (Finite 1) (Finite (- (10 ^ 18))) (Finite (10 ^ 18))
   = Numeric64 (Finite (1 / 2))"
proof -
  have "fdiv (Finite 1) (Finite 1) = Finite 1"
    by (simp add: round64_values)
  moreover have "flog2 (Finite 1) = Finite 0"
    by (simp add: round64_zero)
  moreover have "fsub (Finite 0) (Finite (- (10 ^ 18))) = Finite (10 ^ 18)"
  proof -
    have "fsub (Finite 0) (Finite (- (10 ^ 18))) = round64 (10 ^ 18)"
      by (simp add: fsub_def)
    then show ?thesis by (simp only: round64_values)
  qed
  moreover have "fdiv (Finite (10 ^ 18)) (Finite (2 * 10 ^ 18)) = Finite (1 / 2)"
  proof -
    have "fdiv (Finite (10 ^ 18)) (Finite (2 * 10 ^ 18)) = round64 (1 / 2)"
      by simp
    then show ?thesis by (simp only: round64_values)
  qed
  ultimately show ?thesis
    by (simp only: log_encoding_Log2_float64_def Let_def id_apply elementwise64.simps
          exposure_range_float64)
qed

lemma encoding_float64_two:
  "log_encoding_Log2_float64 id id (Numeric64 (Finite 2))
     (Finite 1) (Finite (- (10 ^ 18))) (Finite (10 ^ 18))
   = Numeric64 (Finite (1 / 2))"
proof -
  have "fdiv (Finite 2) (Finite 1) = Finite 2"
    by (simp add: round64_values)
  moreover have "flog2 (Finite 2) = Finite 1"
    by (simp add: round64_values)
  moreover have "fsub (Finite 1) (Finite (- (10 ^ 18))) = Finite (10 ^ 18)"
  proof -
    have "fsub (Finite 1) (Finite (- (10 ^ 18))) = round64 (10 ^ 18 + 1)"
      by (simp add: fsub_def add.commute)
    then show ?thesis by (simp only: round64_absorbs_one)
  qed
  moreover have "fdiv (Finite (10 ^ 18)) (Finite (2 * 10 ^ 18)) = Finite (1 / 2)"
  proof -
    have "fdiv (Finite (10 ^ 18)) (Finite (2 * 10 ^ 18)) = round64 (1 / 2)"
      by simp
    then show ?thesis by (simp only: round64_values)
  qed
  ultimately show ?thesis
    by (simp only: log_encoding_Log2_float64_def Let_def id_apply elementwise64.simps
          exposure_range_float64)
qed

lemma reciprocal_range_float64:
  "fdiv (Finite 1) (Finite (2 * 10 ^ 18)) \<noteq> Finite 0"
proof -
  have "round64 (1 / (2 * 10 ^ 18)) \<noteq> Finite 0"
    by (rule round64_positive [where k = "- 61"]) (simp_all add: powr_minus field_simps)
  then show ?thesis by simp
qed

subsection \<open>Where the statements of exact arithmetic fail\<close>


text \<open>
  C9, as stated: doubling the linear value raises the encoding by
  \<open>1 / (max_exposure - min_exposure)\<close>. In double precision, with middle
  grey 1 and the exposure bounds \<open>-10 ^ 18\<close> and \<open>10 ^ 18\<close>, the
  encodings of 2 and of 1 are both one half, since \<open>1 + 10 ^ 18\<close> rounds
  to \<open>10 ^ 18\<close>; their difference is zero, and
  \<open>1 / (max_exposure - min_exposure)\<close> is not.
\<close>

theorem encoding_float64_shift_lost:
  "(0::real) < 1 \<and> (- (10 ^ 18) :: real) < 10 ^ 18
   \<and> log_encoding_Log2_float64 id id (Numeric64 (Finite 2))
         (Finite 1) (Finite (- (10 ^ 18))) (Finite (10 ^ 18))
       = Numeric64 (Finite (1 / 2))
   \<and> log_encoding_Log2_float64 id id (Numeric64 (Finite 1))
         (Finite 1) (Finite (- (10 ^ 18))) (Finite (10 ^ 18))
       = Numeric64 (Finite (1 / 2))
   \<and> fsub (Finite (1 / 2)) (Finite (1 / 2)) = Finite 0
   \<and> fdiv (Finite 1) (fsub (Finite (10 ^ 18)) (Finite (- (10 ^ 18)))) \<noteq> Finite 0"
  using reciprocal_range_float64
  by (simp only: encoding_float64_one encoding_float64_two exposure_range_float64)
     (simp add: fsub_def round64_zero)


section \<open>Arrays\<close>

text \<open>
  C8. Let both hooks act element by element (as the identity does). Then an
  array of length \<open>N\<close> is encoded, and decoded, to an array of length
  \<open>N\<close> whose element \<open>i\<close> is the result for the number at position
  \<open>i\<close> of the input; and a single number is encoded, and decoded, to a
  single number.
\<close>

theorem elementwise_application:
  assumes "to_domain_1 = elementwise f" and "from_range_1 = elementwise g"
  shows "(\<exists>ys. log_encoding_Log2 to_domain_1 from_range_1 (Ndarray xs)
                 middle_grey min_exposure max_exposure = Ndarray ys
              \<and> length ys = length xs
              \<and> (\<forall>i<length xs. log_encoding_Log2 to_domain_1 from_range_1 (Numeric (xs ! i))
                     middle_grey min_exposure max_exposure = Numeric (ys ! i)))
       \<and> (\<exists>ys. log_decoding_Log2 to_domain_1 from_range_1 (Ndarray xs)
                 middle_grey min_exposure max_exposure = Ndarray ys
              \<and> length ys = length xs
              \<and> (\<forall>i<length xs. log_decoding_Log2 to_domain_1 from_range_1 (Numeric (xs ! i))
                     middle_grey min_exposure max_exposure = Numeric (ys ! i)))
       \<and> (\<exists>y. log_encoding_Log2 to_domain_1 from_range_1 (Numeric x)
                 middle_grey min_exposure max_exposure = Numeric y)
       \<and> (\<exists>y. log_decoding_Log2 to_domain_1 from_range_1 (Numeric x)
                 middle_grey min_exposure max_exposure = Numeric y)"
  unfolding assms by (simp add: log_encoding_Log2_def log_decoding_Log2_def np_defs)

theorem elementwise_application_witness:
  "\<exists>ys. log_encoding_Log2 id id (Ndarray [1, 2, 4]) 1 0 1 = Ndarray ys
       \<and> length ys = 3
       \<and> log_encoding_Log2 id id (Numeric 4) 1 0 1 = Numeric (ys ! 2)"
proof -
  have hooks: "id = elementwise (\<lambda>x. x)" by (simp add: elementwise_id)
  from elementwise_application [OF hooks hooks, of "[1, 2, 4]" 1 0 1]
  obtain ys where ys: "log_encoding_Log2 id id (Ndarray [1, 2, 4]) 1 0 1 = Ndarray ys"
      "length ys = length [1, 2, 4 :: real]"
      "\<forall>i<length [1, 2, 4 :: real].
         log_encoding_Log2 id id (Numeric ([1, 2, 4] ! i)) 1 0 1 = Numeric (ys ! i)"
    by blast
  have "(2::nat) < length [1, 2, 4 :: real]" by simp
  with ys(3) have "log_encoding_Log2 id id (Numeric ([1, 2, 4] ! 2)) 1 0 1 = Numeric (ys ! 2)"
    by blast
  with ys(1,2) show ?thesis by simp
qed

end
